theory Spec2Isabelle
  imports
    Main
    "HOL-Library.Word"
    "HOL-Library.Option_ord"
    "HOL-Library.Multiset"
    "HOL-Library.Sublist"
begin

unbundle bit_operations_syntax

section \<open>Link shortener: data model\<close>

text \<open>
  The embedding follows the layered implementation: the table \<open>links\<close> of
  \<^verbatim>\<open>db/schema.ts\<close>, the repository (\<^verbatim>\<open>LinkRepository\<close>), the service
  (\<^verbatim>\<open>LinkService\<close>) and the redirect route \<^verbatim>\<open>pages/[shortCode].ts\<close>.

  A JavaScript string is modelled as a \<open>string\<close> whose characters are its UTF-16 code
  units; every literal of the source stays below \<open>0x100\<close>, so one \<open>char\<close> per code
  unit is exact and \<open>length\<close> is the \<^verbatim>\<open>.length\<close> of the source. The table holds integers
  (\<open>nat\<close> for the identifiers, \<open>int\<close> for the click counts); where the redirect route
  computes with a count as a JavaScript number, the range in which that is exact is
  written out (\<open>safeInteger\<close>). The column \<^verbatim>\<open>id\<close> is called \<open>linkId\<close> here.
\<close>

record Link =
  linkId :: nat
  originalUrl :: string
  shortCode :: string
  isCustom :: "bool option"
  createdAt :: "nat option"
  clickCount :: int

datatype CreateLinkDTO =
  CreateLinkDTO (dtoOriginalUrl: string) (dtoShortCode: "string option")

record LinkSummary =
  summaryId :: nat
  summaryOriginalUrl :: string
  summaryShortCode :: string

datatype error_code = CONFLICT | BAD_REQUEST | NOT_FOUND | INTERNAL_SERVER_ERROR

datatype LinkServiceError = LinkServiceError (message: string) (code: error_code)

datatype response =
  Response (body: string) (status: nat)
| Redirect (location: string) (status: nat)

section \<open>The database\<close>

text \<open>
  The table is the list of its rows in insertion order, and every statement that the
  sources send through the drizzle connection \<^verbatim>\<open>db\<close> is modelled by what it does to
  the table. The driver raises either when the storage is unavailable or when a
  \<^verbatim>\<open>.unique()\<close> column of the schema would get a duplicate.
\<close>

datatype column = Original_url | Short_code

datatype db_error = Unavailable | UniqueViolation column

text \<open>
  Every statement a request sends meets the environment once: the rows that requests
  running at the same time committed since the previous statement (each through the same
  constrained insert), and whether the storage is down for this statement. A request's
  environment is the list of these encounters, one per statement, in order; when the
  list is used up the environment is quiet: no outage and no other writer.
\<close>

record encounter =
  outage :: bool
  commits :: "(string \<times> string \<times> bool) list"

text \<open>
  The state a request runs in: the table, the encounters ahead, the clock read by
  \<^verbatim>\<open>new Date()\<close>, the pool of random bytes that \<^verbatim>\<open>nanoid\<close> reads, with the number
  of bytes already handed out, and the alphabet of \<^verbatim>\<open>nanoid\<close>.
\<close>

text \<open>
  Modelled from the spec: the field \<open>urlAlphabet\<close>, the alphabet that \<^verbatim>\<open>nanoid\<close> draws
  from. The service imports \<^verbatim>\<open>nanoid\<close> from the package of that name; the package's
  code is not among the sources and its version is not fixed there, so the alphabet is
  a parameter of the state. The spec has the generator draw from ``a URL-safe
  alphabet'' and leaves the exact alphabet open.
\<close>

record sys =
  links :: "Link list"
  schedule :: "encounter list"
  clock :: nat
  pool :: "nat \<Rightarrow> 8 word"
  poolOffset :: nat
  urlAlphabet :: string

text \<open>\<^verbatim>\<open>primaryKey({ autoIncrement: true })\<close>: one more than the largest id in use.\<close>

definition nextId :: "Link list \<Rightarrow> nat" where
  "nextId rows = Suc (foldr (\<lambda>r m. max (linkId r) m) rows 0)"

text \<open>
  \<^verbatim>\<open>db.insert(links).values({ originalUrl, shortCode, isCustom }).returning()\<close>
  with the defaults of the schema: \<^verbatim>\<open>createdAt\<close> from the clock, \<^verbatim>\<open>clickCount\<close> 0.
  Both unique columns are checked.
\<close>

definition insertRow ::
  "nat \<Rightarrow> string \<Rightarrow> string \<Rightarrow> bool \<Rightarrow> Link list \<Rightarrow> db_error + (Link \<times> Link list)" where
  "insertRow t url c custom rows =
     (if url \<in> set (map originalUrl rows) then Inl (UniqueViolation Original_url)
      else if c \<in> set (map shortCode rows) then Inl (UniqueViolation Short_code)
      else
        (let l = \<lparr>linkId = nextId rows, originalUrl = url, shortCode = c,
                  isCustom = Some custom, createdAt = Some t, clickCount = 0\<rparr>
         in Inr (l, rows @ [l])))"

text \<open>A row another request commits; when a constraint rejects it the table stays.\<close>

definition landCommit :: "nat \<Rightarrow> string \<times> string \<times> bool \<Rightarrow> Link list \<Rightarrow> Link list" where
  "landCommit t v rows =
     (case v of (url, c, custom) \<Rightarrow>
        (case insertRow t url c custom rows of
           Inl e \<Rightarrow> rows
         | Inr (l, rows') \<Rightarrow> rows'))"

text \<open>The start of a statement: the result says whether the driver raises.\<close>

definition nextStatement :: "sys \<Rightarrow> bool \<times> sys" where
  "nextStatement s =
     (case schedule s of
        [] \<Rightarrow> (False, s)
      | e # es \<Rightarrow>
          (outage e,
           s\<lparr>links := fold (landCommit (clock s)) (commits e) (links s), schedule := es\<rparr>))"

section \<open>LinkRepository\<close>

definition findByOriginalUrl :: "string \<Rightarrow> sys \<Rightarrow> (db_error + Link option) \<times> sys" where
  "findByOriginalUrl url s =
     (case nextStatement s of (down, s1) \<Rightarrow>
        if down then (Inl Unavailable, s1)
        else (Inr (find (\<lambda>l. originalUrl l = url) (links s1)), s1))"

definition findByShortCode :: "string \<Rightarrow> sys \<Rightarrow> (db_error + Link option) \<times> sys" where
  "findByShortCode c s =
     (case nextStatement s of (down, s1) \<Rightarrow>
        if down then (Inl Unavailable, s1)
        else (Inr (find (\<lambda>l. shortCode l = c) (links s1)), s1))"

text \<open>\<^verbatim>\<open>isCustom: !!data.shortCode\<close>: a string is truthy when it is not empty.\<close>

definition create :: "string \<Rightarrow> string \<Rightarrow> sys \<Rightarrow> (db_error + Link) \<times> sys" where
  "create url c s =
     (case nextStatement s of (down, s1) \<Rightarrow>
        if down then (Inl Unavailable, s1)
        else
          (case insertRow (clock s1) url c (c \<noteq> []) (links s1) of
             Inl e \<Rightarrow> (Inl e, s1)
           | Inr (l, rows') \<Rightarrow> (Inr l, s1\<lparr>links := rows'\<rparr>)))"

definition toSummary :: "Link \<Rightarrow> LinkSummary" where
  "toSummary l =
     \<lparr>summaryId = linkId l, summaryOriginalUrl = originalUrl l,
      summaryShortCode = shortCode l\<rparr>"

text \<open>
  \<^verbatim>\<open>.orderBy(links.createdAt)\<close>: ascending, a missing timestamp before every other
  (the order of \<open>nat option\<close>, as in SQLite).
\<close>

definition findAll :: "sys \<Rightarrow> (db_error + LinkSummary list) \<times> sys" where
  "findAll s =
     (case nextStatement s of (down, s1) \<Rightarrow>
        if down then (Inl Unavailable, s1)
        else (Inr (map toSummary (sort_key createdAt (links s1))), s1))"

section \<open>The random generator\<close>

text \<open>
  Modelled from the spec: \<^verbatim>\<open>nanoid(size)\<close>, whose code is missing as said above. The
  spec has it yield \<^verbatim>\<open>size\<close> characters drawn from the alphabet (8 for the service);
  as in the package, each of the next \<^verbatim>\<open>size\<close> bytes \<^verbatim>\<open>b\<close> of the random pool selects
  the symbol at index \<^verbatim>\<open>b & 63\<close> of the alphabet.
\<close>

definition nanoid :: "nat \<Rightarrow> sys \<Rightarrow> string \<times> sys" where
  "nanoid sz s =
     (map (\<lambda>i. urlAlphabet s ! unat (pool s i AND 63)) [poolOffset s ..< poolOffset s + sz],
      s\<lparr>poolOffset := poolOffset s + sz\<rparr>)"

section \<open>LinkService\<close>

text \<open>What a \<^verbatim>\<open>try\<close> block can throw: a business error or an error of the driver.\<close>

datatype thrown = Business LinkServiceError | Driver db_error

definition noUniqueCode :: LinkServiceError where
  "noUniqueCode =
     LinkServiceError (''No se pudo generar un c'' @ [CHR 0xF3] @ ''digo '' @ [CHR 0xFA] @ ''nico'')
       INTERNAL_SERVER_ERROR"

definition urlRegistered :: LinkServiceError where
  "urlRegistered =
     LinkServiceError (''Esta URL ya est'' @ [CHR 0xE1] @ '' registrada'') CONFLICT"

definition codeInUse :: LinkServiceError where
  "codeInUse =
     LinkServiceError
       (''Este c'' @ [CHR 0xF3] @ ''digo personalizado ya est'' @ [CHR 0xE1]
          @ '' en uso. Elige uno diferente.'')
       BAD_REQUEST"

definition createFailed :: LinkServiceError where
  "createFailed = LinkServiceError ''Error al crear el enlace'' INTERNAL_SERVER_ERROR"

text \<open>
  \<^verbatim>\<open>generateUniqueShortCode(maxAttempts = 3)\<close>: the first argument counts the
  iterations of the loop that are left.
\<close>

fun generateUniqueShortCode :: "nat \<Rightarrow> sys \<Rightarrow> (thrown + string) \<times> sys" where
  "generateUniqueShortCode 0 s = (Inl (Business noUniqueCode), s)"
| "generateUniqueShortCode (Suc n) s =
     (case nanoid 8 s of (candidate, s1) \<Rightarrow>
        (case findByShortCode candidate s1 of
           (Inl e, s2) \<Rightarrow> (Inl (Driver e), s2)
         | (Inr None, s2) \<Rightarrow> (Inr candidate, s2)
         | (Inr (Some existing), s2) \<Rightarrow> generateUniqueShortCode n s2))"

text \<open>\<^verbatim>\<open>!finalShortCode\<close>: true for \<^verbatim>\<open>undefined\<close> and for the empty string.\<close>

definition falsy :: "string option \<Rightarrow> bool" where
  "falsy v = (case v of None \<Rightarrow> True | Some c \<Rightarrow> c = [])"

text \<open>The body of the \<^verbatim>\<open>try\<close> block of \<^verbatim>\<open>createLink\<close>.\<close>

definition createLinkTry :: "CreateLinkDTO \<Rightarrow> sys \<Rightarrow> (thrown + Link) \<times> sys" where
  "createLinkTry data s =
     (case findByOriginalUrl (dtoOriginalUrl data) s of
        (Inl e, s1) \<Rightarrow> (Inl (Driver e), s1)
      | (Inr (Some existingUrl), s1) \<Rightarrow> (Inl (Business urlRegistered), s1)
      | (Inr None, s1) \<Rightarrow>
          (case
             (if falsy (dtoShortCode data) then generateUniqueShortCode 3 s1
              else
                (case findByShortCode (the (dtoShortCode data)) s1 of
                   (Inl e, s2) \<Rightarrow> (Inl (Driver e), s2)
                 | (Inr (Some existingShortCode), s2) \<Rightarrow> (Inl (Business codeInUse), s2)
                 | (Inr None, s2) \<Rightarrow> (Inr (the (dtoShortCode data)), s2)))
           of
             (Inl t, s2) \<Rightarrow> (Inl t, s2)
           | (Inr finalShortCode, s2) \<Rightarrow>
               (case create (dtoOriginalUrl data) finalShortCode s2 of
                  (Inl e, s3) \<Rightarrow> (Inl (Driver e), s3)
                | (Inr newLink, s3) \<Rightarrow> (Inr newLink, s3))))"

text \<open>The \<^verbatim>\<open>catch\<close>: a business error is thrown again, anything else becomes internal.\<close>

definition createLink :: "CreateLinkDTO \<Rightarrow> sys \<Rightarrow> (LinkServiceError + Link) \<times> sys" where
  "createLink data s =
     (case createLinkTry data s of
        (Inl (Business e), s') \<Rightarrow> (Inl e, s')
      | (Inl (Driver e), s') \<Rightarrow> (Inl createFailed, s')
      | (Inr newLink, s') \<Rightarrow> (Inr newLink, s'))"

definition getAllLinks :: "sys \<Rightarrow> (LinkServiceError + LinkSummary list) \<times> sys" where
  "getAllLinks s =
     (case findAll s of
        (Inl e, s') \<Rightarrow>
          (Inl (LinkServiceError ''Error al obtener enlaces'' INTERNAL_SERVER_ERROR), s')
      | (Inr ls, s') \<Rightarrow> (Inr ls, s'))"

section \<open>The redirect route\<close>

text \<open>
  The handler holds the stored count as a JavaScript number and computes
  \<^verbatim>\<open>link.clickCount + 1\<close> with it. A number holds the integers from
  \<open>- (2 ^ 53 - 1)\<close> to \<open>2 ^ 53 - 1\<close> (\<^verbatim>\<open>Number.MAX_SAFE_INTEGER\<close>) exactly, and one more
  than such an integer is again a number that is exact, so there the sum is the sum of
  integers. Beyond this range a count does not reach the handler as an exact number and
  the sum is not exact either (no number is \<open>2 ^ 53 + 1\<close>); the request then ends in
  the \<^verbatim>\<open>catch\<close> and nothing is written.
\<close>

definition safeInteger :: "int \<Rightarrow> bool" where
  "safeInteger n = (- 9007199254740991 \<le> n \<and> n \<le> 9007199254740991)"

text \<open>
  \<^verbatim>\<open>GET\<close> of \<^verbatim>\<open>pages/[shortCode].ts\<close>; the argument is \<^verbatim>\<open>params.shortCode\<close>, which
  may be \<^verbatim>\<open>undefined\<close>. The select has no limit and the handler takes the first row;
  the update writes the count that was read plus one into every row with that id. Any
  error of the driver reaches the \<^verbatim>\<open>catch\<close>; so does a count that is not a safe
  integer, which the model lets happen where the update is sent.
\<close>

definition GET :: "string option \<Rightarrow> sys \<Rightarrow> response \<times> sys" where
  "GET shortCodeParam s =
     (if falsy shortCodeParam then (Response ''Short code not provided'' 400, s)
      else
        (case nextStatement s of (down, s1) \<Rightarrow>
           if down then (Response ''Internal Server Error'' 500, s1)
           else
             (case filter (\<lambda>l. shortCode l = the shortCodeParam) (links s1) of
                [] \<Rightarrow> (Response ''Link not found'' 404, s1)
              | link # rest \<Rightarrow>
                  (case nextStatement s1 of (down2, s2) \<Rightarrow>
                     if down2 then (Response ''Internal Server Error'' 500, s2)
                     else if safeInteger (clickCount link) then
                       (Redirect (originalUrl link) 302,
                        s2\<lparr>links :=
                             map (\<lambda>r. if linkId r = linkId link
                                       then r\<lparr>clickCount := clickCount link + 1\<rparr> else r)
                               (links s2)\<rparr>)
                     else (Response ''Internal Server Error'' 500, s2)))))"

section \<open>Input validation of the action layer\<close>



section \<open>Constraints, reachable states and sample inputs\<close>

text \<open>
  The constraints of \<^verbatim>\<open>db/schema.ts\<close>: \<^verbatim>\<open>id\<close> is the primary key, \<^verbatim>\<open>original_url\<close>
  and \<^verbatim>\<open>short_code\<close> are unique.
\<close>

definition schemaOk :: "Link list \<Rightarrow> bool" where
  "schemaOk rows =
     (distinct (map linkId rows) \<and> distinct (map originalUrl rows)
      \<and> distinct (map shortCode rows))"

text \<open>
  The states that sequences of \<open>createLink\<close> and \<open>GET\<close> requests produce from the empty
  table. Between two requests the environment (encounters ahead, clock, random pool) is
  arbitrary.
\<close>

inductive reachable :: "sys \<Rightarrow> bool" where
  boot:
    "reachable
       \<lparr>links = [], schedule = sch, clock = t, pool = p, poolOffset = off, urlAlphabet = a\<rparr>"
| surroundings:
    "reachable s \<Longrightarrow> reachable (s\<lparr>schedule := sch, clock := t, pool := p, poolOffset := off\<rparr>)"
| created: "reachable s \<Longrightarrow> reachable (snd (createLink data s))"
| resolved: "reachable s \<Longrightarrow> reachable (snd (GET shortCodeParam s))"

text \<open>The \<open>k\<close>-th candidate (counted from 0) that \<^verbatim>\<open>nanoid(8)\<close> yields from state \<open>s\<close> on.\<close>

definition candidate :: "sys \<Rightarrow> nat \<Rightarrow> string" where
  "candidate s k = fst (nanoid 8 (s\<lparr>poolOffset := poolOffset s + 8 * k\<rparr>))"


text \<open>
  The code a request without a usable custom code tries first, or else the custom code.
\<close>

definition firstChoice :: "CreateLinkDTO \<Rightarrow> sys \<Rightarrow> string" where
  "firstChoice data s =
     (if falsy (dtoShortCode data) then candidate s 0 else the (dtoShortCode data))"

text \<open>The row that an insert of \<open>url\<close> and \<open>c\<close> adds to the table of \<open>s\<close>.\<close>

definition freshLink :: "sys \<Rightarrow> string \<Rightarrow> string \<Rightarrow> Link" where
  "freshLink s url c =
     \<lparr>linkId = nextId (links s), originalUrl = url, shortCode = c,
      isCustom = Some (c \<noteq> []), createdAt = Some (clock s), clickCount = 0\<rparr>"

definition quiet :: encounter where
  "quiet = \<lparr>outage = False, commits = []\<rparr>"

definition storageDown :: encounter where
  "storageDown = \<lparr>outage = True, commits = []\<rparr>"

definition zeroPool :: "nat \<Rightarrow> 8 word" where
  "zeroPool i = 0"

text \<open>A sample alphabet: 64 symbols of the pattern of the custom codes.\<close>

definition sampleAlphabet :: string where
  "sampleAlphabet = ''uABCDEFGHIJKLMNOPQRSTUVWXYZabcdefghijklmnopqrstvwxyz0123456789--''"

definition emptySys :: sys where
  "emptySys = \<lparr>links = [], schedule = [], clock = 1000, pool = zeroPool, poolOffset = 0,
      urlAlphabet = sampleAlphabet\<rparr>"

definition exampleLink :: Link where
  "exampleLink =
     \<lparr>linkId = 1, originalUrl = ''https://example.com'', shortCode = ''abc123'',
      isCustom = Some True, createdAt = Some 1000, clickCount = 0\<rparr>"

definition oneLinkSys :: sys where
  "oneLinkSys =
     \<lparr>links = [exampleLink], schedule = [], clock = 2000, pool = zeroPool, poolOffset = 0,
      urlAlphabet = sampleAlphabet\<rparr>"


definition failingUpdateSys :: sys where
  "failingUpdateSys = oneLinkSys\<lparr>schedule := [quiet, storageDown]\<rparr>"

definition racingWriter :: encounter where
  "racingWriter = \<lparr>outage = False, commits = [(''https://example.com'', ''other'', True)]\<rparr>"

definition racedSys :: sys where
  "racedSys = emptySys\<lparr>schedule := [quiet, quiet, racingWriter]\<rparr>"

definition takenSys :: sys where
  "takenSys =
     \<lparr>links = [exampleLink\<lparr>shortCode := ''uuuuuuuu''\<rparr>], schedule = [], clock = 2000,
      pool = zeroPool, poolOffset = 0,
      urlAlphabet = sampleAlphabet\<rparr>"

text \<open>A table whose rows are not in the order of their timestamps, one without a timestamp.\<close>

definition unorderedSys :: sys where
  "unorderedSys =
     \<lparr>links =
        [exampleLink\<lparr>createdAt := Some 3000\<rparr>,
         \<lparr>linkId = 2, originalUrl = ''https://b.example'', shortCode = ''second'',
          isCustom = Some True, createdAt = Some 2000, clickCount = 7\<rparr>,
         \<lparr>linkId = 3, originalUrl = ''https://c.example'', shortCode = ''third'',
          isCustom = Some True, createdAt = None, clickCount = 0\<rparr>],
      schedule = [], clock = 4000, pool = zeroPool, poolOffset = 0,
      urlAlphabet = sampleAlphabet\<rparr>"

text \<open>
  Four requests from the empty table: two links are created, then a request for the URL
  of the first and a request for the code of the second are refused.
\<close>

definition afterFirst :: sys where
  "afterFirst = snd (createLink (CreateLinkDTO ''https://example.com'' None) emptySys)"

definition afterSecond :: sys where
  "afterSecond = snd (createLink (CreateLinkDTO ''https://b.example'' (Some ''second'')) afterFirst)"

definition afterSameUrl :: sys where
  "afterSameUrl = snd (createLink (CreateLinkDTO ''https://example.com'' (Some ''third'')) afterSecond)"

definition afterSameCode :: sys where
  "afterSameCode = snd (createLink (CreateLinkDTO ''https://c.example'' (Some ''second'')) afterSameUrl)"

section \<open>The constraints of the schema are kept\<close>

lemma nextStatement_quiet: "schedule s = [] \<Longrightarrow> nextStatement s = (False, s)"
  by (simp add: nextStatement_def)

lemma linkId_less_nextId: "r \<in> set rows \<Longrightarrow> linkId r < nextId rows"
  unfolding nextId_def by (induction rows) (auto simp: less_Suc_eq_le max_def)

lemma nextId_fresh: "nextId rows \<notin> set (map linkId rows)"
  using linkId_less_nextId by fastforce

lemma insertRow_schemaOk:
  assumes "schemaOk rows" and "insertRow t url c custom rows = Inr (l, rows')"
  shows "schemaOk rows'"
proof -
  from assms(2) have fresh: "url \<notin> set (map originalUrl rows)" "c \<notin> set (map shortCode rows)"
    and rows': "rows' = rows @ [\<lparr>linkId = nextId rows, originalUrl = url, shortCode = c,
                  isCustom = Some custom, createdAt = Some t, clickCount = 0\<rparr>]"
    by (auto simp: insertRow_def Let_def split: if_splits)
  with assms(1) nextId_fresh [of rows] show ?thesis
    by (simp add: schemaOk_def)
qed

lemma landCommit_schemaOk: "schemaOk rows \<Longrightarrow> schemaOk (landCommit t v rows)"
  by (auto simp: landCommit_def split: prod.splits sum.splits dest: insertRow_schemaOk)

lemma fold_landCommit_schemaOk: "schemaOk rows \<Longrightarrow> schemaOk (fold (landCommit t) vs rows)"
  by (induction vs arbitrary: rows) (simp_all add: landCommit_schemaOk)

lemma nextStatement_schemaOk:
  "schemaOk (links s) \<Longrightarrow> schemaOk (links (snd (nextStatement s)))"
  by (simp add: nextStatement_def fold_landCommit_schemaOk split: list.splits)

lemma findByOriginalUrl_schemaOk:
  "schemaOk (links s) \<Longrightarrow> schemaOk (links (snd (findByOriginalUrl url s)))"
  by (simp add: findByOriginalUrl_def case_prod_beta nextStatement_schemaOk)

lemma findByShortCode_schemaOk:
  "schemaOk (links s) \<Longrightarrow> schemaOk (links (snd (findByShortCode c s)))"
  by (simp add: findByShortCode_def case_prod_beta nextStatement_schemaOk)

lemma create_schemaOk:
  assumes "schemaOk (links s)"
  shows "schemaOk (links (snd (create url c s)))"
proof -
  let ?s1 = "snd (nextStatement s)"
  from assms have ok: "schemaOk (links ?s1)" by (rule nextStatement_schemaOk)
  show ?thesis
  proof (cases "insertRow (clock ?s1) url c (c \<noteq> []) (links ?s1)")
    case (Inl e)
    with ok show ?thesis by (simp add: create_def case_prod_beta)
  next
    case (Inr p)
    obtain l rows' where p: "p = (l, rows')" by (cases p)
    with Inr ok have "schemaOk rows'" by (auto dest: insertRow_schemaOk)
    with Inr p ok show ?thesis by (simp add: create_def case_prod_beta)
  qed
qed

lemma nanoid_links: "links (snd (nanoid k s)) = links s"
  by (simp add: nanoid_def)

lemma generateUniqueShortCode_schemaOk:
  "schemaOk (links s) \<Longrightarrow> schemaOk (links (snd (generateUniqueShortCode n s)))"
proof (induction n arbitrary: s)
  case 0
  then show ?case by simp
next
  case (Suc n)
  let ?s1 = "snd (nanoid 8 s)"
  let ?f = "findByShortCode (fst (nanoid 8 s)) ?s1"
  from Suc.prems have "schemaOk (links ?s1)" by (simp add: nanoid_links)
  then have ok2: "schemaOk (links (snd ?f))" by (rule findByShortCode_schemaOk)
  then have "schemaOk (links (snd (generateUniqueShortCode n (snd ?f))))" by (rule Suc.IH)
  with ok2 show ?case
    by (simp add: case_prod_beta split: sum.splits option.splits)
qed

lemma createLinkTry_schemaOk:
  assumes "schemaOk (links s)"
  shows "schemaOk (links (snd (createLinkTry data s)))"
proof -
  let ?f = "findByOriginalUrl (dtoOriginalUrl data) s"
  let ?g = "generateUniqueShortCode 3 (snd ?f)"
  let ?h = "findByShortCode (the (dtoShortCode data)) (snd ?f)"
  from assms have ok1: "schemaOk (links (snd ?f))" by (rule findByOriginalUrl_schemaOk)
  then have okg: "schemaOk (links (snd ?g))" by (rule generateUniqueShortCode_schemaOk)
  from ok1 have okh: "schemaOk (links (snd ?h))" by (rule findByShortCode_schemaOk)
  have okc: "\<And>c. schemaOk (links (snd (create (dtoOriginalUrl data) c (snd ?g))))"
    "\<And>c. schemaOk (links (snd (create (dtoOriginalUrl data) c (snd ?h))))"
    using okg okh by (simp_all add: create_schemaOk)
  show ?thesis
    using ok1 okg okh okc
    by (auto simp: createLinkTry_def case_prod_beta split: sum.splits option.splits)
qed

lemma createLink_schemaOk:
  "schemaOk (links s) \<Longrightarrow> schemaOk (links (snd (createLink data s)))"
  using createLinkTry_schemaOk [of s data]
  by (simp add: createLink_def case_prod_beta split: sum.splits thrown.splits)

lemma schemaOk_bump:
  "schemaOk rows \<Longrightarrow> schemaOk (map (\<lambda>r. if linkId r = i then r\<lparr>clickCount := n\<rparr> else r) rows)"
proof -
  let ?u = "\<lambda>r. if linkId r = i then r\<lparr>clickCount := n\<rparr> else r"
  have "map linkId (map ?u rows) = map linkId rows"
    and "map originalUrl (map ?u rows) = map originalUrl rows"
    and "map shortCode (map ?u rows) = map shortCode rows"
    by (induction rows) auto
  then show "schemaOk rows \<Longrightarrow> schemaOk (map ?u rows)"
    unfolding schemaOk_def by presburger
qed

lemma GET_schemaOk:
  assumes "schemaOk (links s)"
  shows "schemaOk (links (snd (GET p s)))"
proof -
  let ?s1 = "snd (nextStatement s)"
  let ?s2 = "snd (nextStatement ?s1)"
  from assms have ok1: "schemaOk (links ?s1)" by (rule nextStatement_schemaOk)
  then have ok2: "schemaOk (links ?s2)" by (rule nextStatement_schemaOk)
  from assms ok1 ok2 show ?thesis
    by (simp add: GET_def case_prod_beta schemaOk_bump split: list.splits)
qed

lemma reachable_schemaOk: "reachable s \<Longrightarrow> schemaOk (links s)"
proof (induction rule: reachable.induct)
  case (boot sch t p off a)
  show ?case by (simp add: schemaOk_def)
next
  case (surroundings s sch t p off)
  then show ?case by simp
next
  case (created s data)
  from created.IH show ?case by (rule createLink_schemaOk)
next
  case (resolved s shortCodeParam)
  from resolved.IH show ?case by (rule GET_schemaOk)
qed

section \<open>The redirect route and the listing\<close>



text \<open>An absent code, \<^verbatim>\<open>undefined\<close> or the empty string, is answered before any lookup.\<close>

lemma GET_absent_code:
  "falsy shortCodeParam \<Longrightarrow> GET shortCodeParam s = (Response ''Short code not provided'' 400, s)"
  by (simp add: GET_def)

subsection \<open>C1: resolving a code\<close>




subsection \<open>C2: a failing click increment\<close>

text \<open>
  C2, as the code has it. The select and the update are inside one \<^verbatim>\<open>try\<close>: when the
  select finds a row for a code that is not empty and the storage is down for the
  update, \<open>GET\<close> answers 500 \<^verbatim>\<open>Internal Server Error\<close>; there is no redirect and the
  table is as before.
\<close>

theorem GET_increment_failure:
  assumes "schedule s = quiet # storageDown # es" and "c \<noteq> []"
    and "c \<in> set (map shortCode (links s))"
  shows "GET (Some c) s = (Response ''Internal Server Error'' 500, s\<lparr>schedule := es\<rparr>)"
proof -
  from assms(3) have "filter (\<lambda>l. shortCode l = c) (links s) \<noteq> []"
    by (auto simp: filter_empty_conv)
  then obtain l rest where "filter (\<lambda>l. shortCode l = c) (links s) = l # rest"
    by (cases "filter (\<lambda>l. shortCode l = c) (links s)") auto
  with assms(1,2) show ?thesis
    by (simp add: GET_def falsy_def nextStatement_def quiet_def storageDown_def)
qed

text \<open>The stored link of \<open>oneLinkSys\<close>, with the storage down for the second statement.\<close>

theorem GET_increment_failure_witness:
  "schedule failingUpdateSys = quiet # storageDown # [] \<and> ''abc123'' \<noteq> []
   \<and> ''abc123'' \<in> set (map shortCode (links failingUpdateSys))
   \<and> GET (Some ''abc123'') failingUpdateSys
       = (Response ''Internal Server Error'' 500, oneLinkSys)"
  using GET_increment_failure [of failingUpdateSys "[]" "''abc123''"]
  by (simp add: failingUpdateSys_def oneLinkSys_def exampleLink_def)

text \<open>
  The claim as stated fails there: the link is stored, the update fails, and the answer
  is the 500 response, not the redirect to the stored URL.
\<close>

theorem GET_increment_failure_counterexample:
  "exampleLink \<in> set (links failingUpdateSys)
   \<and> fst (GET (Some (shortCode exampleLink)) failingUpdateSys)
       = Response ''Internal Server Error'' 500
   \<and> fst (GET (Some (shortCode exampleLink)) failingUpdateSys)
       \<noteq> Redirect (originalUrl exampleLink) 302"
  by (simp add: GET_def falsy_def nextStatement_def failingUpdateSys_def oneLinkSys_def
      exampleLink_def quiet_def storageDown_def)

subsection \<open>C9: listing\<close>

text \<open>
  C9. For every table, with the storage available, \<open>findAll\<close> (and \<open>getAllLinks\<close>, which
  passes its result on) returns, for an arrangement of the stored rows that is ascending
  in \<open>createdAt\<close>, one summary per row in that order: the row's \<open>id\<close>, its \<open>originalUrl\<close>
  and its \<open>shortCode\<close>, which are all the fields a summary has.
\<close>

theorem findAll_summaries_by_creation_time:
  "\<exists>ls. mset ls = mset (links s) \<and> sorted (map createdAt ls)
     \<and> findAll (s\<lparr>schedule := []\<rparr>)
         = (Inr (map (\<lambda>l. \<lparr>summaryId = linkId l, summaryOriginalUrl = originalUrl l,
                           summaryShortCode = shortCode l\<rparr>) ls),
            s\<lparr>schedule := []\<rparr>)
     \<and> getAllLinks (s\<lparr>schedule := []\<rparr>)
         = (Inr (map (\<lambda>l. \<lparr>summaryId = linkId l, summaryOriginalUrl = originalUrl l,
                           summaryShortCode = shortCode l\<rparr>) ls),
            s\<lparr>schedule := []\<rparr>)"
proof (intro exI conjI)
  let ?sum = "\<lambda>l. \<lparr>summaryId = linkId l, summaryOriginalUrl = originalUrl l,
                    summaryShortCode = shortCode l\<rparr>"
  have t: "toSummary = ?sum" by (simp add: fun_eq_iff toSummary_def)
  show "mset (sort_key createdAt (links s)) = mset (links s)" by simp
  show "sorted (map createdAt (sort_key createdAt (links s)))" by simp
  show f: "findAll (s\<lparr>schedule := []\<rparr>)
        = (Inr (map ?sum (sort_key createdAt (links s))), s\<lparr>schedule := []\<rparr>)"
    by (simp add: findAll_def nextStatement_def t)
  show "getAllLinks (s\<lparr>schedule := []\<rparr>)
        = (Inr (map ?sum (sort_key createdAt (links s))), s\<lparr>schedule := []\<rparr>)"
    by (simp add: getAllLinks_def f)
qed

text \<open>
  On \<open>unorderedSys\<close>, whose rows 1, 2, 3 have the timestamps 3000, 2000 and none, the
  only ascending arrangement is 3, 2, 1, and the listing is the three summaries in
  that order.
\<close>

theorem findAll_summaries_by_creation_time_witness:
  "findAll unorderedSys =
     (Inr [\<lparr>summaryId = 3, summaryOriginalUrl = ''https://c.example'',
             summaryShortCode = ''third''\<rparr>,
           \<lparr>summaryId = 2, summaryOriginalUrl = ''https://b.example'',
             summaryShortCode = ''second''\<rparr>,
           \<lparr>summaryId = 1, summaryOriginalUrl = ''https://example.com'',
             summaryShortCode = ''abc123''\<rparr>],
      unorderedSys)
   \<and> getAllLinks unorderedSys =
     (Inr [\<lparr>summaryId = 3, summaryOriginalUrl = ''https://c.example'',
             summaryShortCode = ''third''\<rparr>,
           \<lparr>summaryId = 2, summaryOriginalUrl = ''https://b.example'',
             summaryShortCode = ''second''\<rparr>,
           \<lparr>summaryId = 1, summaryOriginalUrl = ''https://example.com'',
             summaryShortCode = ''abc123''\<rparr>],
      unorderedSys)"
proof -
  have u: "unorderedSys\<lparr>schedule := []\<rparr> = unorderedSys"
    by (simp add: unorderedSys_def)
  from findAll_summaries_by_creation_time [of unorderedSys]
  obtain ls where m: "mset ls = mset (links unorderedSys)"
    and o: "sorted (map createdAt ls)"
    and f: "findAll unorderedSys
        = (Inr (map (\<lambda>l. \<lparr>summaryId = linkId l, summaryOriginalUrl = originalUrl l,
                          summaryShortCode = shortCode l\<rparr>) ls), unorderedSys)"
    and g: "getAllLinks unorderedSys
        = (Inr (map (\<lambda>l. \<lparr>summaryId = linkId l, summaryOriginalUrl = originalUrl l,
                          summaryShortCode = shortCode l\<rparr>) ls), unorderedSys)"
    unfolding u by blast
  have "findAll unorderedSys
      = (Inr [\<lparr>summaryId = 3, summaryOriginalUrl = ''https://c.example'',
             summaryShortCode = ''third''\<rparr>,
           \<lparr>summaryId = 2, summaryOriginalUrl = ''https://b.example'',
             summaryShortCode = ''second''\<rparr>,
           \<lparr>summaryId = 1, summaryOriginalUrl = ''https://example.com'',
             summaryShortCode = ''abc123''\<rparr>], unorderedSys)"
    by (simp add: findAll_def nextStatement_def unorderedSys_def exampleLink_def toSummary_def)
  with f g show ?thesis by simp
qed

section \<open>Generated codes\<close>


lemma nanoid_length: "length (fst (nanoid k s)) = k"
  by (simp add: nanoid_def)






lemma generateUniqueShortCode_length:
  "generateUniqueShortCode n s = (Inr c, s') \<Longrightarrow> length c = 8"
proof (induction n arbitrary: s)
  case 0
  then show ?case by simp
next
  case (Suc n)
  let ?c = "fst (nanoid 8 s)"
  let ?f = "findByShortCode ?c (snd (nanoid 8 s))"
  show ?case
  proof (cases "fst ?f = Inr None")
    case True
    with Suc.prems have "c = ?c" by (simp add: case_prod_beta)
    then show ?thesis by (simp add: nanoid_length)
  next
    case False
    with Suc.prems have "generateUniqueShortCode n (snd ?f) = (Inr c, s')"
      by (auto simp: case_prod_beta split: sum.splits option.splits)
    then show ?thesis by (rule Suc.IH)
  qed
qed


subsection \<open>C6: the shape of a generated code\<close>



section \<open>The service in a quiet environment\<close>

lemma find_None_map: "find (\<lambda>l. f l = v) rows = None \<longleftrightarrow> v \<notin> set (map f rows)"
  by (auto simp: find_None_iff)

lemma findByOriginalUrl_quiet:
  "schedule s = [] \<Longrightarrow>
   findByOriginalUrl url s = (Inr (find (\<lambda>l. originalUrl l = url) (links s)), s)"
  by (simp add: findByOriginalUrl_def nextStatement_quiet)

lemma findByShortCode_quiet:
  "schedule s = [] \<Longrightarrow>
   findByShortCode c s = (Inr (find (\<lambda>l. shortCode l = c) (links s)), s)"
  by (simp add: findByShortCode_def nextStatement_quiet)

lemma create_quiet:
  assumes "schedule s = []" and "url \<notin> set (map originalUrl (links s))"
    and "c \<notin> set (map shortCode (links s))"
  shows "create url c s = (Inr (freshLink s url c), s\<lparr>links := links s @ [freshLink s url c]\<rparr>)"
  using assms by (simp add: create_def nextStatement_quiet insertRow_def freshLink_def Let_def)

lemma case_find:
  "(case find (\<lambda>l. f l = v) rows of None \<Rightarrow> a | Some x \<Rightarrow> b)
   = (if v \<in> set (map f rows) then b else a)"
proof (cases "find (\<lambda>l. f l = v) rows")
  case None
  then have "v \<notin> set (map f rows)" by (auto simp: find_None_iff)
  with None show ?thesis by simp
next
  case (Some x)
  then have "find (\<lambda>l. f l = v) rows \<noteq> None" by simp
  then have "v \<in> set (map f rows)" by (auto simp: find_None_iff)
  with Some show ?thesis by simp
qed

lemma candidate_length: "length (candidate s k) = 8"
  by (simp add: candidate_def nanoid_length)

text \<open>One iteration of the loop in a quiet environment.\<close>

lemma generate_step:
  assumes "schedule s = []"
  shows "generateUniqueShortCode (Suc n) s
         = (if fst (nanoid 8 s) \<in> set (map shortCode (links s))
            then generateUniqueShortCode n (snd (nanoid 8 s))
            else (Inr (fst (nanoid 8 s)), snd (nanoid 8 s)))"
proof -
  from assms have "schedule (snd (nanoid 8 s)) = []" by (simp add: nanoid_def)
  then show ?thesis
    by (simp add: case_prod_beta findByShortCode_quiet case_find nanoid_links)
qed

lemma generate_three:
  assumes "schedule s = []"
  shows "generateUniqueShortCode 3 s
         = (if candidate s 0 \<notin> set (map shortCode (links s))
            then (Inr (candidate s 0), s\<lparr>poolOffset := poolOffset s + 8\<rparr>)
            else if candidate s 1 \<notin> set (map shortCode (links s))
            then (Inr (candidate s 1), s\<lparr>poolOffset := poolOffset s + 16\<rparr>)
            else if candidate s 2 \<notin> set (map shortCode (links s))
            then (Inr (candidate s 2), s\<lparr>poolOffset := poolOffset s + 24\<rparr>)
            else (Inl (Business noUniqueCode), s\<lparr>poolOffset := poolOffset s + 24\<rparr>))"
proof -
  define s1 where "s1 = s\<lparr>poolOffset := poolOffset s + 8\<rparr>"
  define s2 where "s2 = s\<lparr>poolOffset := poolOffset s + 16\<rparr>"
  define s3 where "s3 = s\<lparr>poolOffset := poolOffset s + 24\<rparr>"
  have n0: "nanoid 8 s = (candidate s 0, s1)"
    and n1: "nanoid 8 s1 = (candidate s 1, s2)"
    and n2: "nanoid 8 s2 = (candidate s 2, s3)"
    by (simp_all add: nanoid_def candidate_def s1_def s2_def s3_def)
  from assms have q: "schedule s1 = []" "schedule s2 = []"
    and l: "links s1 = links s" "links s2 = links s"
    by (simp_all add: s1_def s2_def)
  have "generateUniqueShortCode (Suc 0) s2
        = (if fst (nanoid 8 s2) \<in> set (map shortCode (links s2))
           then generateUniqueShortCode 0 (snd (nanoid 8 s2))
           else (Inr (fst (nanoid 8 s2)), snd (nanoid 8 s2)))"
    by (rule generate_step [OF q(2)])
  also have "\<dots> = (if candidate s 2 \<in> set (map shortCode (links s))
           then (Inl (Business noUniqueCode), s3) else (Inr (candidate s 2), s3))"
    by (simp add: n2 l)
  finally have g2: "generateUniqueShortCode (Suc 0) s2
        = (if candidate s 2 \<in> set (map shortCode (links s))
           then (Inl (Business noUniqueCode), s3) else (Inr (candidate s 2), s3))" .
  have g1: "generateUniqueShortCode (Suc (Suc 0)) s1
        = (if candidate s 1 \<in> set (map shortCode (links s))
           then generateUniqueShortCode (Suc 0) s2 else (Inr (candidate s 1), s2))"
    by (simp only: generate_step [OF q(1)] n1 l fst_conv snd_conv)
  have g0: "generateUniqueShortCode (Suc (Suc (Suc 0))) s
        = (if candidate s 0 \<in> set (map shortCode (links s))
           then generateUniqueShortCode (Suc (Suc 0)) s1 else (Inr (candidate s 0), s1))"
    by (simp only: generate_step [OF assms] n0 fst_conv snd_conv)
  have "generateUniqueShortCode (Suc (Suc (Suc 0))) s
        = (if candidate s 0 \<notin> set (map shortCode (links s)) then (Inr (candidate s 0), s1)
           else if candidate s 1 \<notin> set (map shortCode (links s)) then (Inr (candidate s 1), s2)
           else if candidate s 2 \<notin> set (map shortCode (links s)) then (Inr (candidate s 2), s3)
           else (Inl (Business noUniqueCode), s3))"
    unfolding g0 g1 g2 by simp
  then show ?thesis
    unfolding numeral_3_eq_3 s1_def s2_def s3_def .
qed

lemma replicate_8: "replicate 8 x = [x, x, x, x, x, x, x, x]"
  by (simp add: eval_nat_numeral)

lemma nextStatement_poolOffset: "poolOffset (snd (nextStatement s)) = poolOffset s"
  by (simp add: nextStatement_def split: list.splits)

lemma findByOriginalUrl_poolOffset: "poolOffset (snd (findByOriginalUrl url s)) = poolOffset s"
  by (simp add: findByOriginalUrl_def case_prod_beta nextStatement_poolOffset)

lemma findByShortCode_poolOffset: "poolOffset (snd (findByShortCode c s)) = poolOffset s"
  by (simp add: findByShortCode_def case_prod_beta nextStatement_poolOffset)

lemma create_poolOffset: "poolOffset (snd (create url c s)) = poolOffset s"
  by (simp add: create_def case_prod_beta nextStatement_poolOffset split: sum.splits)

lemma generateUniqueShortCode_poolOffset:
  "poolOffset (snd (generateUniqueShortCode n s)) \<le> poolOffset s + 8 * n"
proof (induction n arbitrary: s)
  case 0
  show ?case by simp
next
  case (Suc n)
  let ?f = "findByShortCode (fst (nanoid 8 s)) (snd (nanoid 8 s))"
  have o: "poolOffset (snd ?f) = poolOffset s + 8"
    by (simp add: findByShortCode_poolOffset nanoid_def)
  from Suc.IH [of "snd ?f"] o
  have "poolOffset (snd (generateUniqueShortCode n (snd ?f))) \<le> poolOffset s + 8 * Suc n"
    by simp
  with o show ?case
    by (simp add: case_prod_beta split: sum.splits option.splits)
qed

lemma createLinkTry_poolOffset:
  "poolOffset (snd (createLinkTry data s)) \<le> poolOffset s + 24"
proof -
  let ?f = "findByOriginalUrl (dtoOriginalUrl data) s"
  have "poolOffset (snd (generateUniqueShortCode 3 (snd ?f))) \<le> poolOffset s + 24"
    using generateUniqueShortCode_poolOffset [of 3 "snd ?f"]
    by (simp add: findByOriginalUrl_poolOffset)
  then show ?thesis
    by (auto simp: createLinkTry_def case_prod_beta findByOriginalUrl_poolOffset
        findByShortCode_poolOffset create_poolOffset split: sum.splits option.splits)
qed

lemma createLink_poolOffset:
  "poolOffset (snd (createLink data s)) \<le> poolOffset s + 24"
  using createLinkTry_poolOffset [of data s]
  by (simp add: createLink_def case_prod_beta split: sum.splits thrown.splits)

lemma freshLink_poolOffset [simp]:
  "freshLink (s\<lparr>poolOffset := n\<rparr>) url c = freshLink s url c"
  by (simp add: freshLink_def)

lemma createLink_generated_quiet:
  assumes "schedule s = []" and "falsy (dtoShortCode data)"
    and "dtoOriginalUrl data \<notin> set (map originalUrl (links s))"
  shows "createLink data s =
    (case generateUniqueShortCode 3 s of
       (Inl (Business e), s2) \<Rightarrow> (Inl e, s2)
     | (Inl (Driver e), s2) \<Rightarrow> (Inl createFailed, s2)
     | (Inr c, s2) \<Rightarrow>
         (case create (dtoOriginalUrl data) c s2 of
            (Inl e, s3) \<Rightarrow> (Inl createFailed, s3)
          | (Inr newLink, s3) \<Rightarrow> (Inr newLink, s3)))"
proof -
  from assms(3) have "find (\<lambda>l. originalUrl l = dtoOriginalUrl data) (links s) = None"
    by (simp add: find_None_map)
  with assms(1,2) show ?thesis
    by (simp add: createLink_def createLinkTry_def findByOriginalUrl_quiet
        split: prod.splits sum.splits thrown.splits)
qed

subsection \<open>C7: at most three candidates\<close>

text \<open>
  C7. A call of \<open>createLink\<close> takes at most \<open>3 * 8\<close> bytes from the random pool, that is
  at most three candidates. With the storage available, no other writer, no usable
  custom code and a URL that is not stored: the first of the three candidates that no
  row has is the code of the new link, and the pool has advanced by exactly the
  candidates up to it (8, 16 or 24 bytes); when all three collide the call fails with
  the business error \<open>noUniqueCode\<close>, whose code is
  \<open>INTERNAL_SERVER_ERROR\<close>, after exactly three candidates and with the table unchanged.
\<close>

theorem createLink_generation_budget:
  assumes "schedule s = []" and "falsy (dtoShortCode data)"
    and "dtoOriginalUrl data \<notin> set (map originalUrl (links s))"
  shows "poolOffset (snd (createLink data s)) \<le> poolOffset s + 3 * 8
    \<and> (candidate s 0 \<notin> set (map shortCode (links s)) \<longrightarrow>
         createLink data s =
           (Inr (freshLink s (dtoOriginalUrl data) (candidate s 0)),
            s\<lparr>links := links s @ [freshLink s (dtoOriginalUrl data) (candidate s 0)],
              poolOffset := poolOffset s + 8\<rparr>))
    \<and> (candidate s 0 \<in> set (map shortCode (links s))
         \<and> candidate s 1 \<notin> set (map shortCode (links s)) \<longrightarrow>
         createLink data s =
           (Inr (freshLink s (dtoOriginalUrl data) (candidate s 1)),
            s\<lparr>links := links s @ [freshLink s (dtoOriginalUrl data) (candidate s 1)],
              poolOffset := poolOffset s + 16\<rparr>))
    \<and> (candidate s 0 \<in> set (map shortCode (links s))
         \<and> candidate s 1 \<in> set (map shortCode (links s))
         \<and> candidate s 2 \<notin> set (map shortCode (links s)) \<longrightarrow>
         createLink data s =
           (Inr (freshLink s (dtoOriginalUrl data) (candidate s 2)),
            s\<lparr>links := links s @ [freshLink s (dtoOriginalUrl data) (candidate s 2)],
              poolOffset := poolOffset s + 24\<rparr>))
    \<and> (candidate s 0 \<in> set (map shortCode (links s))
         \<and> candidate s 1 \<in> set (map shortCode (links s))
         \<and> candidate s 2 \<in> set (map shortCode (links s)) \<longrightarrow>
         createLink data s = (Inl noUniqueCode, s\<lparr>poolOffset := poolOffset s + 24\<rparr>))
    \<and> code noUniqueCode = INTERNAL_SERVER_ERROR"
proof -
  note c = createLink_generated_quiet [OF assms] generate_three [OF assms(1)]
  have cr: "create (dtoOriginalUrl data) x (s\<lparr>poolOffset := n\<rparr>)
        = (Inr (freshLink s (dtoOriginalUrl data) x),
           s\<lparr>links := links s @ [freshLink s (dtoOriginalUrl data) x], poolOffset := n\<rparr>)"
    if "x \<notin> set (map shortCode (links s))" for x n
    using create_quiet [of "s\<lparr>poolOffset := n\<rparr>" "dtoOriginalUrl data" x] assms that
    by simp
  have "poolOffset (snd (createLink data s)) \<le> poolOffset s + 3 * 8"
    using createLink_poolOffset [of data s] by simp
  moreover have "code noUniqueCode = INTERNAL_SERVER_ERROR"
    by (simp add: noUniqueCode_def)
  ultimately show ?thesis
    by (simp add: c cr)
qed

text \<open>
  In \<open>takenSys\<close> every candidate is \<open>uuuuuuuu\<close>, which a row has: the call fails after
  three candidates. On the empty table the first candidate is free.
\<close>

theorem createLink_generation_budget_witness:
  "schedule takenSys = [] \<and> falsy None
   \<and> ''https://b.com'' \<notin> set (map originalUrl (links takenSys))
   \<and> candidate takenSys 0 \<in> set (map shortCode (links takenSys))
   \<and> candidate takenSys 1 \<in> set (map shortCode (links takenSys))
   \<and> candidate takenSys 2 \<in> set (map shortCode (links takenSys))
   \<and> createLink (CreateLinkDTO ''https://b.com'' None) takenSys
       = (Inl noUniqueCode, takenSys\<lparr>poolOffset := 24\<rparr>)
   \<and> schedule emptySys = [] \<and> candidate emptySys 0 = ''uuuuuuuu''
   \<and> createLink (CreateLinkDTO ''https://b.com'' None) emptySys
       = (Inr (freshLink emptySys ''https://b.com'' ''uuuuuuuu''),
          emptySys\<lparr>links := [freshLink emptySys ''https://b.com'' ''uuuuuuuu''],
                    poolOffset := 8\<rparr>)"
proof -
  have ct: "candidate takenSys k = ''uuuuuuuu''" for k
    by (simp add: candidate_def nanoid_def takenSys_def zeroPool_def sampleAlphabet_def
        map_replicate_const replicate_8)
  have ce: "candidate emptySys k = ''uuuuuuuu''" for k
    by (simp add: candidate_def nanoid_def emptySys_def zeroPool_def sampleAlphabet_def
        map_replicate_const replicate_8)
  have t: "schedule takenSys = []" "poolOffset takenSys = 0"
    "map originalUrl (links takenSys) = [''https://example.com'']"
    "map shortCode (links takenSys) = [''uuuuuuuu'']"
    by (simp_all add: takenSys_def exampleLink_def)
  have e: "schedule emptySys = []" "poolOffset emptySys = 0" "links emptySys = []"
    by (simp_all add: emptySys_def)
  show ?thesis
    using createLink_generation_budget [of takenSys "CreateLinkDTO ''https://b.com'' None"]
      createLink_generation_budget [of emptySys "CreateLinkDTO ''https://b.com'' None"]
    by (simp add: ct ce t e falsy_def)
qed

section \<open>Creating links\<close>

lemma create_Inr:
  "create url c s = (Inr l, s') \<Longrightarrow>
   originalUrl l = url \<and> shortCode l = c \<and> isCustom l = Some (c \<noteq> []) \<and> clickCount l = 0
   \<and> l \<in> set (links s')"
  by (auto simp: create_def insertRow_def Let_def case_prod_beta split: if_splits)

lemma createLinkTry_Inr:
  assumes "createLinkTry data s = (Inr l, s')"
  shows "\<exists>c s2. create (dtoOriginalUrl data) c s2 = (Inr l, s') \<and> c \<noteq> []
           \<and> (if falsy (dtoShortCode data) then length c = 8
               else c = the (dtoShortCode data))"
proof -
  let ?s1 = "snd (findByOriginalUrl (dtoOriginalUrl data) s)"
  show ?thesis
  proof (cases "falsy (dtoShortCode data)")
    case True
    obtain q s2 where g: "generateUniqueShortCode 3 ?s1 = (q, s2)"
      by (cases "generateUniqueShortCode 3 ?s1")
    with assms True have "\<exists>c. q = Inr c \<and> create (dtoOriginalUrl data) c s2 = (Inr l, s')"
      by (auto simp: createLinkTry_def split: prod.splits sum.splits option.splits)
    then obtain c where q: "q = Inr c"
      and cr: "create (dtoOriginalUrl data) c s2 = (Inr l, s')"
      by blast
    from g q have "length c = 8"
      by (simp add: generateUniqueShortCode_length)
    moreover from this have "c \<noteq> []" by auto
    ultimately show ?thesis using cr True by auto
  next
    case False
    let ?c = "the (dtoShortCode data)"
    from False have ne: "?c \<noteq> []" by (auto simp: falsy_def split: option.splits)
    from assms False have "create (dtoOriginalUrl data) ?c
        (snd (findByShortCode ?c ?s1)) = (Inr l, s')"
      by (auto simp: createLinkTry_def split: prod.splits sum.splits option.splits)
    with ne False show ?thesis by auto
  qed
qed

lemma createLink_Inr:
  "createLink data s = (Inr l, s') \<Longrightarrow> createLinkTry data s = (Inr l, s')"
  by (auto simp: createLink_def split: prod.splits sum.splits thrown.splits)

text \<open>What every successful \<open>createLink\<close> persists.\<close>

lemma createLink_success:
  assumes "createLink data s = (Inr l, s')"
  shows "originalUrl l = dtoOriginalUrl data" and "clickCount l = 0"
    and "isCustom l = Some True" and "l \<in> set (links s')"
    and "falsy (dtoShortCode data) \<Longrightarrow> length (shortCode l) = 8"
    and "\<not> falsy (dtoShortCode data) \<Longrightarrow> shortCode l = the (dtoShortCode data)"
proof -
  from assms obtain c s2 where cr: "create (dtoOriginalUrl data) c s2 = (Inr l, s')"
    and c: "c \<noteq> []"
      "if falsy (dtoShortCode data) then length c = 8
       else c = the (dtoShortCode data)"
    using createLinkTry_Inr [OF createLink_Inr] by blast
  from create_Inr [OF cr] c
  show "originalUrl l = dtoOriginalUrl data" and "clickCount l = 0"
    and "isCustom l = Some True" and "l \<in> set (links s')"
    and "falsy (dtoShortCode data) \<Longrightarrow> length (shortCode l) = 8"
    and "\<not> falsy (dtoShortCode data) \<Longrightarrow> shortCode l = the (dtoShortCode data)"
    by simp_all
qed

subsection \<open>C10: the empty custom code\<close>

text \<open>
  C10. For every URL and state, \<open>createLink\<close> with the empty string as custom code
  returns the same result and leaves the same state as \<open>createLink\<close> without a custom
  code; the service rejects nothing as invalid, and when the call succeeds the link has
  a generated code of 8 characters.
\<close>

theorem createLink_empty_custom_code:
  "createLink (CreateLinkDTO url (Some [])) s = createLink (CreateLinkDTO url None) s
   \<and> (\<forall>l s'. createLink (CreateLinkDTO url (Some [])) s = (Inr l, s') \<longrightarrow>
         length (shortCode l) = 8 \<and> originalUrl l = url)"
proof (intro conjI allI impI)
  have "createLinkTry (CreateLinkDTO url (Some [])) s = createLinkTry (CreateLinkDTO url None) s"
    by (auto simp: createLinkTry_def falsy_def split: prod.splits sum.splits option.splits)
  then show "createLink (CreateLinkDTO url (Some [])) s = createLink (CreateLinkDTO url None) s"
    by (simp only: createLink_def)
next
  fix l s'
  assume ok: "createLink (CreateLinkDTO url (Some [])) s = (Inr l, s')"
  from createLink_success(5) [OF ok] show "length (shortCode l) = 8"
    by (simp add: falsy_def)
  from createLink_success(1) [OF ok] show "originalUrl l = url" by simp
qed

lemma createLink_generated_quiet_dto:
  assumes "schedule s = []" and "falsy sc" and "url \<notin> set (map originalUrl (links s))"
  shows "createLink (CreateLinkDTO url sc) s =
    (case generateUniqueShortCode 3 s of
       (Inl (Business e), s2) \<Rightarrow> (Inl e, s2)
     | (Inl (Driver e), s2) \<Rightarrow> (Inl createFailed, s2)
     | (Inr c, s2) \<Rightarrow>
         (case create url c s2 of
            (Inl e, s3) \<Rightarrow> (Inl createFailed, s3)
          | (Inr newLink, s3) \<Rightarrow> (Inr newLink, s3)))"
proof -
  from assms(3) have "find (\<lambda>l. originalUrl l = url) (links s) = None"
    by (simp add: find_None_map)
  with assms(1,2) show ?thesis
    by (simp add: createLink_def createLinkTry_def findByOriginalUrl_quiet
        split: prod.splits sum.splits thrown.splits)
qed

lemma emptySys_candidate: "candidate emptySys k = ''uuuuuuuu''"
  by (simp add: candidate_def nanoid_def emptySys_def zeroPool_def sampleAlphabet_def
      map_replicate_const replicate_8)

lemma createLink_emptySys:
  "createLink (CreateLinkDTO url None) emptySys
   = (Inr (freshLink emptySys url ''uuuuuuuu''),
      emptySys\<lparr>links := [freshLink emptySys url ''uuuuuuuu''], poolOffset := 8\<rparr>)"
proof -
  have "candidate emptySys 0 \<notin> set (map shortCode (links emptySys))"
    by (simp add: emptySys_def)
  moreover have "createLink (CreateLinkDTO url None) emptySys =
    (case generateUniqueShortCode 3 emptySys of
       (Inl (Business e), s2) \<Rightarrow> (Inl e, s2)
     | (Inl (Driver e), s2) \<Rightarrow> (Inl createFailed, s2)
     | (Inr c, s2) \<Rightarrow>
         (case create url c s2 of
            (Inl e, s3) \<Rightarrow> (Inl createFailed, s3)
          | (Inr newLink, s3) \<Rightarrow> (Inr newLink, s3)))"
    by (rule createLink_generated_quiet_dto) (simp_all add: emptySys_def falsy_def)
  moreover have e: "schedule emptySys = []" "poolOffset emptySys = 0" "links emptySys = []"
    by (simp_all add: emptySys_def)
  moreover have "create url ''uuuuuuuu'' (emptySys\<lparr>poolOffset := 8\<rparr>)
    = (Inr (freshLink emptySys url ''uuuuuuuu''),
       emptySys\<lparr>links := [freshLink emptySys url ''uuuuuuuu''], poolOffset := 8\<rparr>)"
    using create_quiet [of "emptySys\<lparr>poolOffset := 8\<rparr>" url "''uuuuuuuu''"]
    by (simp add: e)
  ultimately show ?thesis
    by (simp add: generate_three emptySys_candidate)
qed

text \<open>On the empty table both calls create the same link with the code \<open>uuuuuuuu\<close>.\<close>

theorem createLink_empty_custom_code_witness:
  "createLink (CreateLinkDTO ''https://example.com'' (Some [])) emptySys
   = (Inr (freshLink emptySys ''https://example.com'' ''uuuuuuuu''),
      emptySys\<lparr>links := [freshLink emptySys ''https://example.com'' ''uuuuuuuu''],
                poolOffset := 8\<rparr>)
   \<and> createLink (CreateLinkDTO ''https://example.com'' None) emptySys
   = (Inr (freshLink emptySys ''https://example.com'' ''uuuuuuuu''),
      emptySys\<lparr>links := [freshLink emptySys ''https://example.com'' ''uuuuuuuu''],
                poolOffset := 8\<rparr>)
   \<and> length (shortCode (freshLink emptySys ''https://example.com'' ''uuuuuuuu'')) = 8"
  using createLink_empty_custom_code [of "''https://example.com''" emptySys]
    createLink_emptySys [of "''https://example.com''"]
  by (simp add: freshLink_def)

subsection \<open>C3: the flag of a generated code\<close>

text \<open>
  C3 at a concrete input. On the empty table, \<open>createLink\<close> without a custom code
  persists the link with \<open>isCustom = Some True\<close>, although the code \<open>uuuuuuuu\<close> was
  generated: the repository computes the flag from the final code, which is never empty
  (\<open>createLink_success\<close> has this for every successful call).
\<close>

theorem createLink_generated_isCustom:
  "createLink (CreateLinkDTO ''https://example.com'' None) emptySys
   = (Inr \<lparr>linkId = 1, originalUrl = ''https://example.com'', shortCode = ''uuuuuuuu'',
            isCustom = Some True, createdAt = Some 1000, clickCount = 0\<rparr>,
      emptySys\<lparr>links :=
          [\<lparr>linkId = 1, originalUrl = ''https://example.com'', shortCode = ''uuuuuuuu'',
             isCustom = Some True, createdAt = Some 1000, clickCount = 0\<rparr>],
        poolOffset := 8\<rparr>)"
  unfolding createLink_emptySys by (simp add: freshLink_def nextId_def emptySys_def)

lemma createLink_duplicate_url:
  assumes "schedule s = []" and "dtoOriginalUrl data \<in> set (map originalUrl (links s))"
  shows "createLink data s = (Inl urlRegistered, s)"
proof -
  from assms(2) obtain existingUrl where
    "find (\<lambda>l. originalUrl l = dtoOriginalUrl data) (links s) = Some existingUrl"
    using find_None_map [of originalUrl "dtoOriginalUrl data" "links s"] by auto
  with assms(1) show ?thesis
    by (simp add: createLink_def createLinkTry_def findByOriginalUrl_quiet)
qed

subsection \<open>C4: a URL that is already stored\<close>

text \<open>
  C4 at a concrete input. With \<open>https://example.com\<close> stored under the code \<open>abc123\<close>, a
  second \<open>createLink\<close> for that URL fails with the code \<open>CONFLICT\<close> and leaves the state
  as it was, but the message is the fixed text of \<open>urlRegistered\<close>, in which the stored
  code does not occur.
\<close>

theorem createLink_conflict_message:
  "createLink (CreateLinkDTO ''https://example.com'' None) oneLinkSys
     = (Inl urlRegistered, oneLinkSys)
   \<and> code urlRegistered = CONFLICT
   \<and> shortCode exampleLink = ''abc123''
   \<and> \<not> sublist ''abc123'' (message urlRegistered)"
proof -
  have "createLink (CreateLinkDTO ''https://example.com'' None) oneLinkSys
     = (Inl urlRegistered, oneLinkSys)"
    by (rule createLink_duplicate_url) (simp_all add: oneLinkSys_def exampleLink_def)
  moreover have "\<not> sublist ''abc123'' (message urlRegistered)"
    by (simp add: urlRegistered_def sublist_Cons_right)
  ultimately show ?thesis
    by (simp add: urlRegistered_def exampleLink_def)
qed

section \<open>A writer between check and insert\<close>

lemma insertRow_taken:
  assumes "url \<in> set (map originalUrl rows) \<or> c \<in> set (map shortCode rows)"
  shows "\<exists>col. insertRow t url c custom rows = Inl (UniqueViolation col)"
  using assms by (auto simp: insertRow_def)

subsection \<open>C5: the insert loses a race\<close>

text \<open>
  C5, as the code has it. The two checks of the call see a table in which neither the
  URL nor the code of the call (its custom code, or else its first candidate) occurs;
  before the insert other requests commit the rows \<open>cs\<close>, after which the URL or the
  code is taken. Then the insert violates a unique constraint and \<open>createLink\<close> fails with
  the error \<open>createFailed\<close>, whose code is \<open>INTERNAL_SERVER_ERROR\<close>, whichever column
  collided. The call sends exactly its three statements, so there is no second insert,
  and the table it leaves is the one the other requests made.
\<close>

theorem createLink_insert_race:
  assumes "schedule s = quiet # quiet # \<lparr>outage = False, commits = cs\<rparr> # es"
    and "dtoOriginalUrl data \<notin> set (map originalUrl (links s))"
    and "firstChoice data s \<notin> set (map shortCode (links s))"
    and "dtoOriginalUrl data \<in> set (map originalUrl (fold (landCommit (clock s)) cs (links s)))
         \<or> firstChoice data s \<in> set (map shortCode (fold (landCommit (clock s)) cs (links s)))"
  shows "createLink data s =
           (Inl createFailed,
            s\<lparr>links := fold (landCommit (clock s)) cs (links s), schedule := es,
              poolOffset := (if falsy (dtoShortCode data) then poolOffset s + 8
                             else poolOffset s)\<rparr>)
         \<and> code createFailed = INTERNAL_SERVER_ERROR"
proof -
  let ?url = "dtoOriginalUrl data"
  let ?c = "firstChoice data s"
  let ?T = "fold (landCommit (clock s)) cs (links s)"
  let ?s1 = "s\<lparr>schedule := quiet # \<lparr>outage = False, commits = cs\<rparr> # es\<rparr>"
  let ?s2 = "s\<lparr>schedule := \<lparr>outage = False, commits = cs\<rparr> # es,
               poolOffset := (if falsy (dtoShortCode data) then poolOffset s + 8 else poolOffset s)\<rparr>"
  let ?s3 = "s\<lparr>links := ?T, schedule := es,
               poolOffset := (if falsy (dtoShortCode data) then poolOffset s + 8 else poolOffset s)\<rparr>"
  from assms(2) have nu: "find (\<lambda>l. originalUrl l = ?url) (links s) = None"
    by (simp add: find_None_map)
  from assms(3) have nc: "find (\<lambda>l. shortCode l = ?c) (links s) = None"
    by (simp add: find_None_map)
  have f1: "findByOriginalUrl ?url s = (Inr None, ?s1)"
    using assms(1) nu by (simp add: findByOriginalUrl_def nextStatement_def quiet_def)
  have f2: "findByShortCode ?c (?s1\<lparr>poolOffset := n\<rparr>)
            = (Inr None, s\<lparr>schedule := \<lparr>outage = False, commits = cs\<rparr> # es, poolOffset := n\<rparr>)" for n
    using nc by (simp add: findByShortCode_def nextStatement_def quiet_def)
  have step: "(if falsy (dtoShortCode data) then generateUniqueShortCode 3 ?s1
        else (case findByShortCode (the (dtoShortCode data)) ?s1 of
                (Inl e, s2) \<Rightarrow> (Inl (Driver e), s2)
              | (Inr (Some existingShortCode), s2) \<Rightarrow> (Inl (Business codeInUse), s2)
              | (Inr None, s2) \<Rightarrow> (Inr (the (dtoShortCode data)), s2)))
        = (Inr ?c, ?s2)"
  proof (cases "falsy (dtoShortCode data)")
    case True
    have n: "nanoid 8 ?s1 = (?c, ?s1\<lparr>poolOffset := poolOffset s + 8\<rparr>)"
      using True by (simp add: firstChoice_def candidate_def nanoid_def)
    from True show ?thesis
      by (simp add: numeral_3_eq_3 n f2)
  next
    case False
    then have c: "the (dtoShortCode data) = ?c" by (simp add: firstChoice_def)
    have "?s1\<lparr>poolOffset := poolOffset s\<rparr> = ?s1" by simp
    with f2 [of "poolOffset s"] have "findByShortCode ?c ?s1
        = (Inr None, s\<lparr>schedule := \<lparr>outage = False, commits = cs\<rparr> # es\<rparr>)"
      by simp
    with False c show ?thesis by simp
  qed
  from insertRow_taken [OF assms(4)] obtain col where
    ins: "insertRow (clock s) ?url ?c (?c \<noteq> []) ?T = Inl (UniqueViolation col)"
    by blast
  have cr: "create ?url ?c ?s2 = (Inl (UniqueViolation col), ?s3)"
    using ins by (simp add: create_def nextStatement_def)
  have "createLinkTry data s = (Inl (Driver (UniqueViolation col)), ?s3)"
    unfolding createLinkTry_def f1 by (simp add: step cr)
  then show ?thesis
    by (simp add: createLink_def createFailed_def)
qed

text \<open>
  Another request stores \<open>https://example.com\<close> under the code \<open>other\<close> just before the
  insert of a call for the same URL with the custom code \<open>mycode\<close>.
\<close>

theorem createLink_insert_race_witness:
  "schedule racedSys = quiet # quiet # \<lparr>outage = False,
       commits = [(''https://example.com'', ''other'', True)]\<rparr> # []
   \<and> ''https://example.com'' \<notin> set (map originalUrl (links racedSys))
   \<and> ''mycode'' \<notin> set (map shortCode (links racedSys))
   \<and> map originalUrl (fold (landCommit (clock racedSys))
          [(''https://example.com'', ''other'', True)] (links racedSys))
       = [''https://example.com'']
   \<and> createLink (CreateLinkDTO ''https://example.com'' (Some ''mycode'')) racedSys
       = (Inl createFailed,
          emptySys\<lparr>links := [freshLink emptySys ''https://example.com'' ''other'']\<rparr>)"
  using createLink_insert_race [of racedSys "[(''https://example.com'', ''other'', True)]" "[]"
      "CreateLinkDTO ''https://example.com'' (Some ''mycode'')"]
  by (simp add: racedSys_def emptySys_def racingWriter_def firstChoice_def falsy_def
      landCommit_def insertRow_def freshLink_def Let_def)

text \<open>
  The claim as stated fails there: the URL collided, and the error code is neither
  \<open>CONFLICT\<close> nor \<open>BAD_REQUEST\<close>.
\<close>

theorem createLink_insert_race_counterexample:
  "fst (createLink (CreateLinkDTO ''https://example.com'' (Some ''mycode'')) racedSys)
     = Inl createFailed
   \<and> code createFailed \<noteq> CONFLICT \<and> code createFailed \<noteq> BAD_REQUEST"
  by (simp add: createLink_def createLinkTry_def findByOriginalUrl_def findByShortCode_def
      create_def nextStatement_def racedSys_def emptySys_def racingWriter_def quiet_def
      falsy_def landCommit_def insertRow_def createFailed_def Let_def)

section \<open>Uniqueness in every reachable state\<close>

subsection \<open>C8: unique URLs and codes\<close>

text \<open>
  C8. In every state that a sequence of \<open>createLink\<close> and \<open>GET\<close> requests reaches from
  the empty table, in any environment, no two rows have the same \<open>originalUrl\<close> and no
  two rows have the same \<open>shortCode\<close>.
\<close>

theorem reachable_unique:
  "reachable s \<Longrightarrow>
   distinct (map originalUrl (links s)) \<and> distinct (map shortCode (links s))"
  using reachable_schemaOk [of s] by (simp add: schemaOk_def)

text \<open>
  The state after the four requests of \<open>afterSameCode\<close> is reachable and has two rows:
  the request for the stored URL was refused with \<open>CONFLICT\<close>, the one for the stored code
  with \<open>BAD_REQUEST\<close>, and neither added a row.
\<close>

theorem reachable_unique_witness:
  "reachable afterSameCode
   \<and> map originalUrl (links afterSameCode) = [''https://example.com'', ''https://b.example'']
   \<and> map shortCode (links afterSameCode) = [''uuuuuuuu'', ''second'']
   \<and> fst (createLink (CreateLinkDTO ''https://example.com'' (Some ''third'')) afterSecond)
       = Inl urlRegistered
   \<and> fst (createLink (CreateLinkDTO ''https://c.example'' (Some ''second'')) afterSameUrl)
       = Inl codeInUse
   \<and> distinct (map originalUrl (links afterSameCode))
   \<and> distinct (map shortCode (links afterSameCode))"
proof -
  have "reachable emptySys" unfolding emptySys_def by (rule reachable.boot)
  then have r: "reachable afterSameCode"
    unfolding afterSameCode_def afterSameUrl_def afterSecond_def afterFirst_def
    by (intro reachable.created)
  have s1: "afterFirst
      = emptySys\<lparr>links := [freshLink emptySys ''https://example.com'' ''uuuuuuuu''],
                 poolOffset := 8\<rparr>"
    by (simp add: afterFirst_def createLink_emptySys)
  have c2: "createLink (CreateLinkDTO ''https://b.example'' (Some ''second'')) afterFirst
      = (Inr (freshLink afterFirst ''https://b.example'' ''second''),
         afterFirst\<lparr>links := links afterFirst @ [freshLink afterFirst ''https://b.example'' ''second'']\<rparr>)"
    by (simp add: s1 createLink_def createLinkTry_def findByOriginalUrl_def findByShortCode_def
        create_def nextStatement_def insertRow_def falsy_def Let_def freshLink_def emptySys_def)
  have l2: "map originalUrl (links afterSecond) = [''https://example.com'', ''https://b.example'']"
    "map shortCode (links afterSecond) = [''uuuuuuuu'', ''second'']"
    "schedule afterSecond = []"
    by (simp_all add: afterSecond_def c2) (simp_all add: s1 freshLink_def emptySys_def)
  have c3: "createLink (CreateLinkDTO ''https://example.com'' (Some ''third'')) afterSecond
      = (Inl urlRegistered, afterSecond)"
    by (rule createLink_duplicate_url) (simp_all add: l2)
  then have s3: "afterSameUrl = afterSecond" by (simp add: afterSameUrl_def)
  have "find (\<lambda>l. originalUrl l = ''https://c.example'') (links afterSecond) = None"
    using find_None_map [of originalUrl "''https://c.example''" "links afterSecond"]
    by (simp add: l2)
  moreover have "find (\<lambda>l. shortCode l = ''second'') (links afterSecond) \<noteq> None"
    using find_None_map [of shortCode "''second''" "links afterSecond"]
    by (simp add: l2)
  ultimately have c4:
    "createLink (CreateLinkDTO ''https://c.example'' (Some ''second'')) afterSecond
      = (Inl codeInUse, afterSecond)"
    by (auto simp: createLink_def createLinkTry_def findByOriginalUrl_quiet
        findByShortCode_quiet l2 falsy_def)
  then have s4: "afterSameCode = afterSecond" by (simp add: afterSameCode_def s3)
  from r reachable_unique [OF r] show ?thesis
    by (simp add: s4 s3 c3 c4 l2)
qed

end
